theory Spec2Isabelle
  imports Main "HOL-Library.Sublist"
begin

section \<open>The resilient request engine of dub-cli (package internal/api)\<close>

text \<open>
  This theory embeds the HTTP client of \<^verbatim>\<open>internal/api\<close>: the circuit breaker
  (\<^verbatim>\<open>checkCircuitBreaker\<close>, \<^verbatim>\<open>recordSuccess\<close>, \<^verbatim>\<open>record5xxError\<close>), the retry loop
  \<^verbatim>\<open>doWithRetry\<close> and the error classifier \<^verbatim>\<open>ParseAPIError\<close>.

  Everything the Go code takes from outside is an explicit input of the model: the clock
  (\<^verbatim>\<open>time.Now\<close>, \<^verbatim>\<open>time.Since\<close>), the transport (\<^verbatim>\<open>httpClient.Do\<close>), the random source
  (\<^verbatim>\<open>mathrand.Int63n\<close>), the body factory (\<^verbatim>\<open>req.GetBody\<close>) and the context
  (\<^verbatim>\<open>ctx.Done\<close>). The mutex \<^verbatim>\<open>cbMu\<close> makes each breaker method one atomic step; the model
  has one function per critical section.
\<close>

subsection \<open>Go integers and durations\<close>

text \<open>
  Go's \<^verbatim>\<open>int\<close> (on 64-bit platforms), \<^verbatim>\<open>int64\<close> and \<^verbatim>\<open>time.Duration\<close> are signed 64-bit
  integers whose arithmetic wraps around. They are modelled as \<^typ>\<open>int\<close> with the
  wrap-around written out. A timestamp is a number of nanoseconds on the monotonic clock.
\<close>

definition wrap64 :: "int \<Rightarrow> int" where
  "wrap64 x = (x + 2 ^ 63) mod 2 ^ 64 - 2 ^ 63"

definition quot :: "int \<Rightarrow> int \<Rightarrow> int" where
  \<comment> \<open>Go's \<^verbatim>\<open>/\<close> on integers: the quotient is truncated toward zero.\<close>
  "quot a b = (if (a < 0) = (b < 0) then \<bar>a\<bar> div \<bar>b\<bar> else - (\<bar>a\<bar> div \<bar>b\<bar>))"

definition time_Since :: "int \<Rightarrow> int \<Rightarrow> int" where
  \<comment> \<open>\<^verbatim>\<open>time.Since(t)\<close> read at clock value \<open>now\<close>: the difference, saturated to the
      range of a Duration as \<^verbatim>\<open>Time.Sub\<close> does.\<close>
  "time_Since now t = max (- (2 ^ 63)) (min (2 ^ 63 - 1) (now - t))"

definition Second :: int where
  "Second = 1000000000"

definition BaseURL :: string where
  "BaseURL = ''https://api.dub.co''"

definition MaxRateLimitRetries :: nat where
  "MaxRateLimitRetries = 3"

definition RateLimitBaseDelay :: int where
  "RateLimitBaseDelay = 1 * Second"

definition Max5xxRetries :: nat where
  "Max5xxRetries = 1"

definition ServerErrorRetryDelay :: int where
  "ServerErrorRetryDelay = 1 * Second"

definition CircuitBreakerThreshold :: int where
  "CircuitBreakerThreshold = 5"

definition CircuitBreakerCooldown :: int where
  "CircuitBreakerCooldown = 30 * Second"

subsection \<open>The client and its circuit breaker\<close>

datatype CircuitState = CircuitClosed | CircuitOpen | CircuitHalfOpen

datatype error =
    ErrCircuitOpen
  | TransportError string
  | ReplayError string
  | ContextError string
  | PanicInt63n

text \<open>
  The fields of \<^verbatim>\<open>Client\<close>; \<^verbatim>\<open>httpClient\<close> is the transport, an input of the retry loop,
  and \<^verbatim>\<open>cbMu\<close> is the lock.
\<close>

record Client =
  baseURL :: string
  apiKey :: string
  cbState :: CircuitState
  cbConsecutive5xx :: int
  cbOpenedAt :: int
  cbCooldown :: int
  cbThreshold :: int
  cbHalfOpenInFlight :: bool

definition NewClient :: "string \<Rightarrow> Client" where
  \<comment> \<open>The fields the constructor leaves out are zero: the count, the flag and the
      time \<open>cbOpenedAt\<close>.\<close>
  "NewClient key =
     \<lparr>baseURL = BaseURL, apiKey = key, cbState = CircuitClosed, cbConsecutive5xx = 0,
      cbOpenedAt = 0, cbCooldown = CircuitBreakerCooldown,
      cbThreshold = CircuitBreakerThreshold, cbHalfOpenInFlight = False\<rparr>"

definition checkCircuitBreaker :: "int \<Rightarrow> Client \<Rightarrow> error option \<times> Client" where
  \<comment> \<open>\<open>now\<close> is the clock when \<^verbatim>\<open>time.Since\<close> is read; \<open>None\<close> is the nil error.\<close>
  "checkCircuitBreaker now c =
     (case cbState c of
        CircuitClosed \<Rightarrow> (None, c)
      | CircuitOpen \<Rightarrow>
          if time_Since now (cbOpenedAt c) \<ge> cbCooldown c
          then (None, c\<lparr>cbState := CircuitHalfOpen\<rparr>)
          else (Some ErrCircuitOpen, c)
      | CircuitHalfOpen \<Rightarrow>
          if cbHalfOpenInFlight c then (Some ErrCircuitOpen, c)
          else (None, c\<lparr>cbHalfOpenInFlight := True\<rparr>))"

definition recordSuccess :: "Client \<Rightarrow> Client" where
  "recordSuccess c =
     c\<lparr>cbState := CircuitClosed, cbConsecutive5xx := 0, cbHalfOpenInFlight := False\<rparr>"

definition record5xxError :: "int \<Rightarrow> Client \<Rightarrow> Client" where
  \<comment> \<open>\<open>now\<close> is the value of \<^verbatim>\<open>time.Now()\<close> inside the critical section.\<close>
  "record5xxError now c =
     (let c1 = c\<lparr>cbConsecutive5xx := wrap64 (cbConsecutive5xx c + 1),
                 cbHalfOpenInFlight := False\<rparr>
      in if cbState c1 = CircuitHalfOpen
         then c1\<lparr>cbState := CircuitOpen, cbOpenedAt := now\<rparr>
         else if cbConsecutive5xx c1 \<ge> cbThreshold c1
         then c1\<lparr>cbState := CircuitOpen, cbOpenedAt := now\<rparr>
         else c1)"

definition CircuitBreakerState :: "Client \<Rightarrow> CircuitState" where
  "CircuitBreakerState c = cbState c"

subsection \<open>The retry loop\<close>

record Response =
  StatusCode :: int
  RetryAfter :: string
  Body :: string

text \<open>
  What the outside world does during one iteration of the loop of \<^verbatim>\<open>doWithRetry\<close>:
  \<^item> \<open>checkTime\<close>: the clock at the permission check;
  \<^item> \<open>transport\<close>: what \<^verbatim>\<open>httpClient.Do\<close> returns, an error (\<open>Inl\<close>) or a response;
  \<^item> \<open>recordTime\<close>: the clock when a server error is recorded;
  \<^item> \<open>rnd\<close>: the non-negative 63-bit number the random source draws for \<^verbatim>\<open>Int63n\<close>;
  \<^item> \<open>replay\<close>: the error of \<^verbatim>\<open>req.GetBody()\<close>, when the request has a body factory
    and it fails;
  \<^item> \<open>ctxErr\<close>: \<^verbatim>\<open>ctx.Err()\<close>, when the context is done before the timer of the wait fires.
\<close>

record Attempt =
  checkTime :: int
  transport :: "string + Response"
  recordTime :: int
  rnd :: int
  replay :: "string option"
  ctxErr :: "string option"

text \<open>
  The local variables of \<^verbatim>\<open>doWithRetry\<close> and the breaker it shares, with two
  observations of the run: the number of transport calls made and the waits completed.
\<close>

record Exec =
  client :: Client
  retries429 :: nat
  retries5xx :: nat
  calls :: nat
  waits :: "int list"

definition isIdempotent :: "string \<Rightarrow> bool" where
  "isIdempotent m = (m = ''GET'' \<or> m = ''HEAD'' \<or> m = ''OPTIONS'')"

definition is_digit :: "char \<Rightarrow> bool" where
  "is_digit ch = (48 \<le> (of_char ch :: nat) \<and> (of_char ch :: nat) \<le> 57)"

definition Atoi :: "string \<Rightarrow> int option" where
  \<comment> \<open>\<^verbatim>\<open>strconv.Atoi\<close>: an optional sign, then one or more decimal digits, the value
      within the range of \<^verbatim>\<open>int\<close>; \<open>None\<close> is a syntax or range error.\<close>
  "Atoi s =
     (case s of
        [] \<Rightarrow> None
      | c # cs \<Rightarrow>
          (let ds = (if c = CHR ''-'' \<or> c = CHR ''+'' then cs else s) in
           if ds = [] \<or> \<not> list_all is_digit ds then None
           else
             (let n = foldl (\<lambda>n ch. n * 10 + (int (of_char ch) - 48)) 0 ds;
                  v = (if c = CHR ''-'' then - n else n)
              in if - (2 ^ 63) \<le> v \<and> v < 2 ^ 63 then Some v else None)))"

definition rateLimitDelay :: "nat \<Rightarrow> int \<Rightarrow> string \<Rightarrow> error + int" where
  \<comment> \<open>Lines 443 to 451 of the loop: the delay before retry number \<open>k\<close> after a 429, from
      the random draw \<open>r\<close> and the value of the Retry-After header (empty when absent).
      \<^verbatim>\<open>Int63n\<close> panics on a bound that is not positive.\<close>
  "rateLimitDelay k r retryAfter =
     (let baseDelay = wrap64 (RateLimitBaseDelay * wrap64 (2 ^ k));
          n = quot baseDelay 2
      in if n \<le> 0 then Inl PanicInt63n
         else
           (let jitter = r mod n;
                delay = wrap64 (baseDelay + jitter)
            in if retryAfter \<noteq> []
               then (case Atoi retryAfter of
                       Some seconds \<Rightarrow> Inr (wrap64 (seconds * Second))
                     | None \<Rightarrow> Inr delay)
               else Inr delay))"

definition dispatch ::
  "string \<Rightarrow> Attempt \<Rightarrow> Response \<Rightarrow> Exec \<Rightarrow> (error + Response) option \<times> Exec" where
  \<comment> \<open>The loop body after a response has arrived. \<open>Some r\<close> is a return of the function,
      \<open>None\<close> is \<^verbatim>\<open>continue\<close>.\<close>
  "dispatch m a resp x =
     (let s = StatusCode resp in
      if 200 \<le> s \<and> s < 300
      then (Some (Inr resp), x\<lparr>client := recordSuccess (client x)\<rparr>)
      else if 400 \<le> s \<and> s < 500 \<and> s \<noteq> 429
      then (Some (Inr resp), x\<lparr>client := recordSuccess (client x)\<rparr>)
      else if s = 429
      then
        (if retries429 x \<ge> MaxRateLimitRetries then (Some (Inr resp), x)
         else
           (case rateLimitDelay (retries429 x) (rnd a) (RetryAfter resp) of
              Inl e \<Rightarrow> (Some (Inl e), x)
            | Inr delay \<Rightarrow>
                (case replay a of
                   Some e \<Rightarrow> (Some (Inl (ReplayError e)), x)
                 | None \<Rightarrow>
                     (case ctxErr a of
                        Some e \<Rightarrow> (Some (Inl (ContextError e)), x)
                      | None \<Rightarrow>
                          (None, x\<lparr>retries429 := retries429 x + 1,
                                    waits := waits x @ [delay]\<rparr>)))))
      else if s \<ge> 500
      then
        (let x1 = x\<lparr>client := record5xxError (recordTime a) (client x)\<rparr> in
         if \<not> isIdempotent m \<or> retries5xx x1 \<ge> Max5xxRetries then (Some (Inr resp), x1)
         else
           (case replay a of
              Some e \<Rightarrow> (Some (Inl (ReplayError e)), x1)
            | None \<Rightarrow>
                (case ctxErr a of
                   Some e \<Rightarrow> (Some (Inl (ContextError e)), x1)
                 | None \<Rightarrow>
                     (None, x1\<lparr>retries5xx := retries5xx x1 + 1,
                                waits := waits x1 @ [ServerErrorRetryDelay]\<rparr>))))
      else (Some (Inr resp), x))"

definition attempt ::
  "string \<Rightarrow> Attempt \<Rightarrow> Exec \<Rightarrow> (error + Response) option \<times> Exec" where
  \<comment> \<open>One iteration of the loop: permission check, transport call, dispatch.\<close>
  "attempt m a x =
     (case checkCircuitBreaker (checkTime a) (client x) of
        (Some e, c') \<Rightarrow> (Some (Inl e), x\<lparr>client := c'\<rparr>)
      | (None, c') \<Rightarrow>
          (let x1 = x\<lparr>client := c', calls := calls x + 1\<rparr> in
           case transport a of
             Inl e \<Rightarrow> (Some (Inl (TransportError e)), x1)
           | Inr resp \<Rightarrow> dispatch m a resp x1))"

definition budget :: "Exec \<Rightarrow> nat" where
  \<comment> \<open>The retries the loop may still make: its variant.\<close>
  "budget x = (MaxRateLimitRetries - retries429 x) + (Max5xxRetries - retries5xx x)"

text \<open>
  The dispatch by status band, one equation per band, and the case distinction they
  follow. The loop terminates because every \<^verbatim>\<open>continue\<close> spends one retry.
\<close>

lemma dispatch_2xx:
  "200 \<le> StatusCode resp \<Longrightarrow> StatusCode resp < 300 \<Longrightarrow>
   dispatch m a resp x = (Some (Inr resp), x\<lparr>client := recordSuccess (client x)\<rparr>)"
  unfolding dispatch_def Let_def by simp

lemma dispatch_4xx:
  "400 \<le> StatusCode resp \<Longrightarrow> StatusCode resp < 500 \<Longrightarrow> StatusCode resp \<noteq> 429 \<Longrightarrow>
   dispatch m a resp x = (Some (Inr resp), x\<lparr>client := recordSuccess (client x)\<rparr>)"
  unfolding dispatch_def Let_def by simp

lemma dispatch_429:
  "StatusCode resp = 429 \<Longrightarrow>
   dispatch m a resp x =
     (if retries429 x \<ge> MaxRateLimitRetries then (Some (Inr resp), x)
      else
        (case rateLimitDelay (retries429 x) (rnd a) (RetryAfter resp) of
           Inl e \<Rightarrow> (Some (Inl e), x)
         | Inr delay \<Rightarrow>
             (case replay a of
                Some e \<Rightarrow> (Some (Inl (ReplayError e)), x)
              | None \<Rightarrow>
                  (case ctxErr a of
                     Some e \<Rightarrow> (Some (Inl (ContextError e)), x)
                   | None \<Rightarrow>
                       (None, x\<lparr>retries429 := retries429 x + 1,
                                 waits := waits x @ [delay]\<rparr>)))))"
  unfolding dispatch_def Let_def by simp

lemma dispatch_5xx:
  "StatusCode resp \<ge> 500 \<Longrightarrow>
   dispatch m a resp x =
     (let x1 = x\<lparr>client := record5xxError (recordTime a) (client x)\<rparr> in
      if \<not> isIdempotent m \<or> retries5xx x1 \<ge> Max5xxRetries then (Some (Inr resp), x1)
      else
        (case replay a of
           Some e \<Rightarrow> (Some (Inl (ReplayError e)), x1)
         | None \<Rightarrow>
             (case ctxErr a of
                Some e \<Rightarrow> (Some (Inl (ContextError e)), x1)
              | None \<Rightarrow>
                  (None, x1\<lparr>retries5xx := retries5xx x1 + 1,
                             waits := waits x1 @ [ServerErrorRetryDelay]\<rparr>))))"
  unfolding dispatch_def Let_def by simp

lemma dispatch_other:
  "StatusCode resp < 200 \<or> (300 \<le> StatusCode resp \<and> StatusCode resp < 400) \<Longrightarrow>
   dispatch m a resp x = (Some (Inr resp), x)"
  unfolding dispatch_def Let_def by auto

lemma status_bands:
  obtains
    (ok) "200 \<le> StatusCode resp" "StatusCode resp < 300"
  | (client_error) "400 \<le> StatusCode resp" "StatusCode resp < 500" "StatusCode resp \<noteq> 429"
  | (rate_limited) "StatusCode resp = 429"
  | (server_error) "StatusCode resp \<ge> 500"
  | (other) "StatusCode resp < 200 \<or> (300 \<le> StatusCode resp \<and> StatusCode resp < 400)"
  by linarith

lemma dispatch_continue_budget:
  assumes "dispatch m a resp x = (None, x')"
  shows "budget x' < budget x"
proof (cases resp rule: status_bands)
  case ok
  with assms show ?thesis by (simp add: dispatch_2xx)
next
  case client_error
  with assms show ?thesis by (simp add: dispatch_4xx)
next
  case rate_limited
  with assms show ?thesis
    by (auto simp: dispatch_429 budget_def split: if_splits sum.splits option.splits)
next
  case server_error
  with assms show ?thesis
    by (auto simp: dispatch_5xx budget_def Let_def split: if_splits option.splits)
next
  case other
  with assms show ?thesis by (simp add: dispatch_other)
qed

lemma attempt_continue_budget:
  assumes "attempt m a x = (None, x')"
  shows "budget x' < budget x"
proof (cases "checkCircuitBreaker (checkTime a) (client x)")
  case (Pair e c')
  show ?thesis
  proof (cases e)
    case None
    show ?thesis
    proof (cases "transport a")
      case (Inl msg)
      with assms Pair None show ?thesis by (simp add: attempt_def)
    next
      case (Inr resp)
      with assms Pair None
      have "dispatch m a resp (x\<lparr>client := c', calls := calls x + 1\<rparr>) = (None, x')"
        by (simp add: attempt_def)
      then have "budget x' < budget (x\<lparr>client := c', calls := calls x + 1\<rparr>)"
        by (rule dispatch_continue_budget)
      then show ?thesis by (simp add: budget_def)
    qed
  next
    case (Some err)
    with assms Pair show ?thesis by (simp add: attempt_def)
  qed
qed

function doWithRetry_loop ::
  "string \<Rightarrow> (nat \<Rightarrow> Attempt) \<Rightarrow> nat \<Rightarrow> Exec \<Rightarrow> (error + Response) \<times> Exec" where
  "doWithRetry_loop m env i x =
     (case attempt m (env i) x of
        (Some r, x') \<Rightarrow> (r, x')
      | (None, x') \<Rightarrow> doWithRetry_loop m env (Suc i) x')"
  by pat_completeness auto
termination
proof (relation "measure (\<lambda>(m, env, i, x). budget x)")
  show "wf (measure (\<lambda>(m, env, i, x). budget x))"
    by simp
next
  fix m :: string and env :: "nat \<Rightarrow> Attempt" and i :: nat and x r x'
  assume "(r, x') = attempt m (env i) x" and "r = None"
  then have "attempt m (env i) x = (None, x')"
    by simp
  then show "((m, env, Suc i, x'), (m, env, i, x)) \<in> measure (\<lambda>(m, env, i, x). budget x)"
    using attempt_continue_budget by simp
qed

definition doWithRetry ::
  "string \<Rightarrow> (nat \<Rightarrow> Attempt) \<Rightarrow> Client \<Rightarrow> (error + Response) \<times> Exec" where
  \<comment> \<open>One logical call with method \<open>m\<close>; \<open>env i\<close> is the outside world during
      iteration \<open>i\<close> of the loop.\<close>
  "doWithRetry m env c =
     doWithRetry_loop m env 0
       \<lparr>client = c, retries429 = 0, retries5xx = 0, calls = 0, waits = []\<rparr>"

subsection \<open>The error classifier\<close>

record APIError =
  Code :: string
  Message :: string
  DocURL :: string

text \<open>
  \<^verbatim>\<open>json.Unmarshal\<close> and \<^verbatim>\<open>strings.TrimSpace\<close> belong to Go's library; they are
  parameters of the model. \<open>unmarshal body\<close> is \<open>None\<close> when decoding fails and the
  decoded \<^verbatim>\<open>resp.Error\<close> otherwise. The result is a pointer: \<open>None\<close> would be nil.
\<close>

definition ParseAPIError ::
  "(string \<Rightarrow> APIError option) \<Rightarrow> (string \<Rightarrow> string) \<Rightarrow> string \<Rightarrow> APIError option" where
  "ParseAPIError unmarshal trimSpace body =
     (case unmarshal body of
        None \<Rightarrow>
          if length body > 0 \<and> (hd body = CHR ''<'' \<or> prefix ''<!'' (trimSpace body))
          then Some \<lparr>Code = ''not_found'',
                     Message = ''Resource not found or endpoint does not exist'',
                     DocURL = ''''\<rparr>
          else Some \<lparr>Code = '''', Message = body, DocURL = ''''\<rparr>
      | Some e \<Rightarrow> Some e)"

section \<open>Properties of the circuit breaker\<close>

subsection \<open>Opening at the threshold\<close>

text \<open>
  A sequence of server-error outcomes reported to the breaker is a fold of
  \<^const>\<open>record5xxError\<close> over the times of the outcomes: \<open>take k ts\<close> are the
  first \<open>k\<close> of them.
\<close>

lemma wrap64_id: "- (2 ^ 63) \<le> x \<Longrightarrow> x < 2 ^ 63 \<Longrightarrow> wrap64 x = x"
  by (simp add: wrap64_def)

lemma record5xxError_below:
  assumes "cbState c = CircuitClosed" "0 \<le> cbConsecutive5xx c"
    "cbConsecutive5xx c + 1 < cbThreshold c" "cbThreshold c < 2 ^ 63"
  shows "record5xxError t c =
           c\<lparr>cbConsecutive5xx := cbConsecutive5xx c + 1, cbHalfOpenInFlight := False\<rparr>"
proof -
  have "wrap64 (cbConsecutive5xx c + 1) = cbConsecutive5xx c + 1"
    using assms by (intro wrap64_id) linarith+
  then show ?thesis
    using assms by (simp add: record5xxError_def Let_def)
qed

lemma record5xxError_reach:
  assumes "cbState c = CircuitClosed" "0 \<le> cbConsecutive5xx c"
    "cbConsecutive5xx c + 1 = cbThreshold c" "cbThreshold c < 2 ^ 63"
  shows "record5xxError t c =
           c\<lparr>cbConsecutive5xx := cbThreshold c, cbHalfOpenInFlight := False,
             cbState := CircuitOpen, cbOpenedAt := t\<rparr>"
proof -
  have "wrap64 (cbConsecutive5xx c + 1) = cbConsecutive5xx c + 1"
    using assms by (intro wrap64_id) linarith+
  then show ?thesis
    using assms by (simp add: record5xxError_def Let_def)
qed

lemma record5xxError_stays_open:
  "cbState c = CircuitOpen \<Longrightarrow> cbState (record5xxError t c) = CircuitOpen"
  by (simp add: record5xxError_def Let_def)

lemma record5xxError_config:
  "cbThreshold (record5xxError t c) = cbThreshold c \<and>
   cbCooldown (record5xxError t c) = cbCooldown c"
  by (simp add: record5xxError_def Let_def)

lemma fold_record5xxError_snoc:
  "k < length ts \<Longrightarrow>
   fold record5xxError (take (Suc k) ts) c = record5xxError (ts ! k) (fold record5xxError (take k ts) c)"
  by (simp add: take_Suc_conv_app_nth)

lemma fold_record5xxError_below:
  assumes "cbState c = CircuitClosed" "0 \<le> cbConsecutive5xx c" "cbThreshold c < 2 ^ 63"
  shows "k \<le> length ts \<Longrightarrow> cbConsecutive5xx c + int k < cbThreshold c \<Longrightarrow>
         cbState (fold record5xxError (take k ts) c) = CircuitClosed \<and>
         cbConsecutive5xx (fold record5xxError (take k ts) c) = cbConsecutive5xx c + int k \<and>
         cbThreshold (fold record5xxError (take k ts) c) = cbThreshold c"
proof (induction k)
  case 0
  show ?case using assms by simp
next
  case (Suc k)
  let ?c = "fold record5xxError (take k ts) c"
  from Suc have k: "k < length ts" and ih: "cbState ?c = CircuitClosed"
    "cbConsecutive5xx ?c = cbConsecutive5xx c + int k" "cbThreshold ?c = cbThreshold c"
    by simp_all
  have "record5xxError (ts ! k) ?c =
          ?c\<lparr>cbConsecutive5xx := cbConsecutive5xx ?c + 1, cbHalfOpenInFlight := False\<rparr>"
    using ih assms Suc.prems by (intro record5xxError_below) simp_all
  then show ?case
    using ih k by (simp add: fold_record5xxError_snoc)
qed

lemma fold_record5xxError_stays_open:
  "cbState (fold record5xxError (take n ts) c) = CircuitOpen \<Longrightarrow> n \<le> k \<Longrightarrow>
   cbState (fold record5xxError (take k ts) c) = CircuitOpen"
proof (induction k)
  case 0
  then show ?case by simp
next
  case (Suc k)
  show ?case
  proof (cases "n = Suc k")
    case True
    with Suc.prems show ?thesis by simp
  next
    case False
    with Suc have ih: "cbState (fold record5xxError (take k ts) c) = CircuitOpen" by simp
    show ?thesis
    proof (cases "k < length ts")
      case True
      then show ?thesis
        using ih by (simp add: fold_record5xxError_snoc record5xxError_stays_open)
    next
      case False
      then show ?thesis using ih by simp
    qed
  qed
qed

text \<open>
  Claim C2. A breaker is Closed with a running count below its threshold (a new client
  has count 0), and \<open>n\<close> is the number of server errors still missing to the
  threshold. When at least \<open>n\<close> consecutive server errors are reported, the breaker
  is still Closed after each of the first \<open>n - 1\<close>; after the \<open>n\<close>-th the count
  equals the threshold, the state is Open and \<open>cbOpenedAt\<close> is the time of that
  outcome; it is Open after every later one. The threshold is a Go \<^verbatim>\<open>int\<close>.
\<close>

theorem C2_opens_exactly_at_threshold:
  assumes closed: "cbState c = CircuitClosed"
    and count: "0 \<le> cbConsecutive5xx c" "cbConsecutive5xx c < cbThreshold c"
    and range: "cbThreshold c < 2 ^ 63"
    and n: "n = nat (cbThreshold c - cbConsecutive5xx c)"
    and len: "n \<le> length ts"
  shows "(\<forall>k<n. cbState (fold record5xxError (take k ts) c) = CircuitClosed) \<and>
         cbState (fold record5xxError (take n ts) c) = CircuitOpen \<and>
         cbConsecutive5xx (fold record5xxError (take n ts) c) = cbThreshold c \<and>
         cbOpenedAt (fold record5xxError (take n ts) c) = ts ! (n - 1) \<and>
         (\<forall>k\<ge>n. cbState (fold record5xxError (take k ts) c) = CircuitOpen)"
proof -
  have before: "cbState (fold record5xxError (take k ts) c) = CircuitClosed \<and>
      cbConsecutive5xx (fold record5xxError (take k ts) c) = cbConsecutive5xx c + int k \<and>
      cbThreshold (fold record5xxError (take k ts) c) = cbThreshold c" if "k < n" for k
    using that n len by (intro fold_record5xxError_below closed count range) linarith+
  have "0 < n"
    using count n by simp
  then obtain j where j: "n = Suc j"
    using gr0_implies_Suc by blast
  let ?c = "fold record5xxError (take j ts) c"
  have pre: "cbState ?c = CircuitClosed" "cbConsecutive5xx ?c = cbConsecutive5xx c + int j"
    "cbThreshold ?c = cbThreshold c"
    using before [of j] j by simp_all
  have jlen: "j < length ts"
    using j len by simp
  have "record5xxError (ts ! j) ?c =
          ?c\<lparr>cbConsecutive5xx := cbThreshold ?c, cbHalfOpenInFlight := False,
             cbState := CircuitOpen, cbOpenedAt := ts ! j\<rparr>"
    using pre count range n j by (intro record5xxError_reach) simp_all
  then have at: "cbState (fold record5xxError (take n ts) c) = CircuitOpen"
    "cbConsecutive5xx (fold record5xxError (take n ts) c) = cbThreshold c"
    "cbOpenedAt (fold record5xxError (take n ts) c) = ts ! (n - 1)"
    using j jlen pre by (simp_all add: fold_record5xxError_snoc)
  have after: "cbState (fold record5xxError (take k ts) c) = CircuitOpen" if "n \<le> k" for k
    using at(1) that by (rule fold_record5xxError_stays_open)
  show ?thesis
    using before at after by blast
qed

text \<open>
  The default client (threshold 5) and seven server errors at times 10 to 70: Closed
  after four, Open after the fifth with \<open>cbOpenedAt = 50\<close>, Open after seven.
\<close>

theorem C2_witness:
  "cbState (fold record5xxError (take 4 [10, 20, 30, 40, 50, 60, 70]) (NewClient ''k'')) = CircuitClosed \<and>
   cbState (fold record5xxError (take 5 [10, 20, 30, 40, 50, 60, 70]) (NewClient ''k'')) = CircuitOpen \<and>
   cbOpenedAt (fold record5xxError (take 5 [10, 20, 30, 40, 50, 60, 70]) (NewClient ''k'')) = 50 \<and>
   cbState (fold record5xxError (take 7 [10, 20, 30, 40, 50, 60, 70]) (NewClient ''k'')) = CircuitOpen"
proof -
  let ?ts = "[10, 20, 30, 40, 50, 60, 70] :: int list"
  let ?F = "\<lambda>k. fold record5xxError (take k ?ts) (NewClient ''k'')"
  have w: "(\<forall>k<5. cbState (?F k) = CircuitClosed) \<and>
      cbState (?F 5) = CircuitOpen \<and>
      cbConsecutive5xx (?F 5) = cbThreshold (NewClient ''k'') \<and>
      cbOpenedAt (?F 5) = ?ts ! (5 - 1) \<and>
      (\<forall>k\<ge>5. cbState (?F k) = CircuitOpen)"
    by (rule C2_opens_exactly_at_threshold)
      (simp_all add: NewClient_def CircuitBreakerThreshold_def)
  have "(4::nat) < 5" and "(5::nat) \<le> 7"
    by simp_all
  then have "cbState (?F 4) = CircuitClosed" and "cbState (?F 7) = CircuitOpen"
    using w by blast+
  moreover have "cbState (?F 5) = CircuitOpen" and "cbOpenedAt (?F 5) = ?ts ! (5 - 1)"
    using w by blast+
  moreover have "?ts ! (5 - 1) = 50"
    by simp
  ultimately show ?thesis
    by simp
qed

subsection \<open>The permission check\<close>

lemma checkCircuitBreaker_rejects_iff:
  "(fst (checkCircuitBreaker now c) = Some ErrCircuitOpen) =
     (cbState c = CircuitOpen \<and> time_Since now (cbOpenedAt c) < cbCooldown c \<or>
      cbState c = CircuitHalfOpen \<and> cbHalfOpenInFlight c)"
  by (cases "cbState c") (auto simp: checkCircuitBreaker_def)

lemma checkCircuitBreaker_error:
  "fst (checkCircuitBreaker now c) \<noteq> None \<Longrightarrow>
   checkCircuitBreaker now c = (Some ErrCircuitOpen, c)"
  by (cases "cbState c") (auto simp: checkCircuitBreaker_def split: if_splits)

lemma checkCircuitBreaker_closed:
  "cbState c = CircuitClosed \<Longrightarrow> checkCircuitBreaker now c = (None, c)"
  by (simp add: checkCircuitBreaker_def)

text \<open>
  Claim C1 (the code departs from it). The breaker is Open, its cooldown has elapsed and
  no probe is in flight. The first check is granted and moves the breaker to HalfOpen,
  but it leaves \<open>cbHalfOpenInFlight\<close> False; a second check, made at any time
  \<open>now'\<close> before an outcome is recorded, finds HalfOpen with the flag clear, sets it
  and is granted as well. Two probes are in flight.
\<close>

theorem C1_second_probe_is_granted:
  assumes "cbState c = CircuitOpen"
    and "cbCooldown c \<le> time_Since now (cbOpenedAt c)"
    and "\<not> cbHalfOpenInFlight c"
  shows "checkCircuitBreaker now c = (None, c\<lparr>cbState := CircuitHalfOpen\<rparr>) \<and>
         \<not> cbHalfOpenInFlight (c\<lparr>cbState := CircuitHalfOpen\<rparr>) \<and>
         checkCircuitBreaker now' (c\<lparr>cbState := CircuitHalfOpen\<rparr>) =
           (None, c\<lparr>cbState := CircuitHalfOpen, cbHalfOpenInFlight := True\<rparr>)"
  using assms by (simp add: checkCircuitBreaker_def)

text \<open>
  Five server errors, the last at 5 s, open the breaker of a default client (threshold
  5, cooldown 30 s). A check at 35 s is granted and leaves the flag clear; a second
  check at 36 s, before any outcome, is granted too.
\<close>

theorem C1_witness:
  "fold record5xxError [1000000000, 2000000000, 3000000000, 4000000000, 5000000000]
     (NewClient ''k'') =
     (NewClient ''k'')\<lparr>cbState := CircuitOpen, cbConsecutive5xx := 5,
        cbOpenedAt := 5000000000\<rparr> \<and>
   checkCircuitBreaker 35000000000
     ((NewClient ''k'')\<lparr>cbState := CircuitOpen, cbConsecutive5xx := 5,
        cbOpenedAt := 5000000000\<rparr>) =
     (None, (NewClient ''k'')\<lparr>cbState := CircuitHalfOpen, cbConsecutive5xx := 5,
        cbOpenedAt := 5000000000, cbHalfOpenInFlight := False\<rparr>) \<and>
   checkCircuitBreaker 36000000000
     ((NewClient ''k'')\<lparr>cbState := CircuitHalfOpen, cbConsecutive5xx := 5,
        cbOpenedAt := 5000000000, cbHalfOpenInFlight := False\<rparr>) =
     (None, (NewClient ''k'')\<lparr>cbState := CircuitHalfOpen, cbConsecutive5xx := 5,
        cbOpenedAt := 5000000000, cbHalfOpenInFlight := True\<rparr>)"
proof -
  let ?c = "(NewClient ''k'')\<lparr>cbState := CircuitOpen, cbConsecutive5xx := 5,
        cbOpenedAt := 5000000000\<rparr>"
  have reach: "fold record5xxError [1000000000, 2000000000, 3000000000, 4000000000, 5000000000]
     (NewClient ''k'') = ?c"
    by (simp add: record5xxError_def NewClient_def wrap64_def CircuitBreakerThreshold_def)
  have "cbState ?c = CircuitOpen" and "cbCooldown ?c \<le> time_Since 35000000000 (cbOpenedAt ?c)"
    and "\<not> cbHalfOpenInFlight ?c"
    by (simp_all add: NewClient_def time_Since_def CircuitBreakerCooldown_def Second_def)
  from C1_second_probe_is_granted [OF this, of 36000000000] reach show ?thesis
    by (simp add: NewClient_def)
qed

section \<open>Properties of the retry loop\<close>

text \<open>
  One iteration of the loop, by the result of its permission check, and the loop by the
  result of its iteration.
\<close>

lemma attempt_rejected:
  assumes "fst (checkCircuitBreaker (checkTime a) (client x)) \<noteq> None"
  shows "attempt m a x = (Some (Inl ErrCircuitOpen), x)"
proof -
  have "checkCircuitBreaker (checkTime a) (client x) = (Some ErrCircuitOpen, client x)"
    using assms by (rule checkCircuitBreaker_error)
  then show ?thesis
    by (simp add: attempt_def)
qed

lemma attempt_granted:
  "checkCircuitBreaker (checkTime a) (client x) = (None, c') \<Longrightarrow>
   attempt m a x =
     (case transport a of
        Inl e \<Rightarrow> (Some (Inl (TransportError e)), x\<lparr>client := c', calls := calls x + 1\<rparr>)
      | Inr resp \<Rightarrow> dispatch m a resp (x\<lparr>client := c', calls := calls x + 1\<rparr>))"
  by (simp add: attempt_def Let_def split: sum.splits)

lemma loop_returns:
  "attempt m (env i) x = (Some r, x') \<Longrightarrow> doWithRetry_loop m env i x = (r, x')"
  by simp

lemma loop_continues:
  "attempt m (env i) x = (None, x') \<Longrightarrow>
   doWithRetry_loop m env i x = doWithRetry_loop m env (Suc i) x'"
  by simp

text \<open>
  Claim C3. The permission check returns the circuit-open error exactly when the breaker
  is Open and less than the cooldown has elapsed since \<open>cbOpenedAt\<close>, or it is
  HalfOpen with a probe in flight; it returns no other error. When the check of an
  iteration of the loop rejects, \<^verbatim>\<open>doWithRetry\<close> returns the circuit-open error from
  that iteration with all of its state as it was: no transport call is counted, neither
  retry counter advances, and the breaker is unchanged.
\<close>

theorem C3_rejection:
  "(fst (checkCircuitBreaker now c) = Some ErrCircuitOpen) =
     (cbState c = CircuitOpen \<and> time_Since now (cbOpenedAt c) < cbCooldown c \<or>
      cbState c = CircuitHalfOpen \<and> cbHalfOpenInFlight c) \<and>
   (fst (checkCircuitBreaker now c) = None \<or>
    fst (checkCircuitBreaker now c) = Some ErrCircuitOpen) \<and>
   (fst (checkCircuitBreaker (checkTime (env i)) (client x)) = Some ErrCircuitOpen \<longrightarrow>
    doWithRetry_loop m env i x = (Inl ErrCircuitOpen, x))"
proof (intro conjI impI)
  show "(fst (checkCircuitBreaker now c) = Some ErrCircuitOpen) =
     (cbState c = CircuitOpen \<and> time_Since now (cbOpenedAt c) < cbCooldown c \<or>
      cbState c = CircuitHalfOpen \<and> cbHalfOpenInFlight c)"
    by (rule checkCircuitBreaker_rejects_iff)
next
  show "fst (checkCircuitBreaker now c) = None \<or>
    fst (checkCircuitBreaker now c) = Some ErrCircuitOpen"
    using checkCircuitBreaker_error [of now c] by (cases "fst (checkCircuitBreaker now c)") auto
next
  assume "fst (checkCircuitBreaker (checkTime (env i)) (client x)) = Some ErrCircuitOpen"
  then have "attempt m (env i) x = (Some (Inl ErrCircuitOpen), x)"
    by (intro attempt_rejected) simp
  then show "doWithRetry_loop m env i x = (Inl ErrCircuitOpen, x)"
    by (rule loop_returns)
qed

text \<open>
  A default client whose breaker opened at time 0 is called at 5 s, inside the cooldown
  of 30 s: the call fails with the circuit-open error and makes no transport call.
\<close>

theorem C3_witness:
  "fst (checkCircuitBreaker 5000000000 ((NewClient ''k'')\<lparr>cbState := CircuitOpen\<rparr>)) =
     Some ErrCircuitOpen \<and>
   doWithRetry ''GET''
     (\<lambda>i. \<lparr>checkTime = 5000000000,
            transport = Inr \<lparr>StatusCode = 200, RetryAfter = '''', Body = ''ok''\<rparr>,
            recordTime = 5000000000, rnd = 0, replay = None, ctxErr = None\<rparr>)
     ((NewClient ''k'')\<lparr>cbState := CircuitOpen\<rparr>) =
   (Inl ErrCircuitOpen,
    \<lparr>client = (NewClient ''k'')\<lparr>cbState := CircuitOpen\<rparr>, retries429 = 0, retries5xx = 0,
     calls = 0, waits = []\<rparr>)"
proof -
  let ?c = "(NewClient ''k'')\<lparr>cbState := CircuitOpen\<rparr>"
  let ?env = "\<lambda>i::nat. \<lparr>checkTime = 5000000000,
            transport = Inr \<lparr>StatusCode = 200, RetryAfter = '''', Body = ''ok''\<rparr>,
            recordTime = 5000000000, rnd = 0, replay = None, ctxErr = None\<rparr>"
  let ?x = "\<lparr>client = ?c, retries429 = 0, retries5xx = 0, calls = 0, waits = []\<rparr>"
  note w = C3_rejection [where now = 5000000000 and c = ?c and env = ?env and i = 0
      and x = ?x and m = "''GET''"]
  have open_now: "cbState ?c = CircuitOpen \<and> time_Since 5000000000 (cbOpenedAt ?c) < cbCooldown ?c"
    by (simp add: NewClient_def time_Since_def CircuitBreakerCooldown_def Second_def)
  with w have r: "fst (checkCircuitBreaker 5000000000 ?c) = Some ErrCircuitOpen"
    by blast
  then have "fst (checkCircuitBreaker (checkTime (?env 0)) (client ?x)) = Some ErrCircuitOpen"
    by simp
  with w have "doWithRetry_loop ''GET'' ?env 0 ?x = (Inl ErrCircuitOpen, ?x)"
    by blast
  with r show ?thesis
    by (simp add: doWithRetry_def)
qed

text \<open>
  Claim C7. A response with a status in 200..299, or in 400..499 other than 429, is
  returned and \<^const>\<open>recordSuccess\<close> is applied to the breaker, whatever its state:
  afterwards \<open>cbConsecutive5xx\<close> is 0, the state is Closed and the probe flag is
  clear.
\<close>

theorem C7_success_resets_breaker:
  assumes "200 \<le> StatusCode resp \<and> StatusCode resp < 300 \<or>
           400 \<le> StatusCode resp \<and> StatusCode resp < 500 \<and> StatusCode resp \<noteq> 429"
  shows "dispatch m a resp x = (Some (Inr resp), x\<lparr>client := recordSuccess (client x)\<rparr>) \<and>
         cbConsecutive5xx (client (snd (dispatch m a resp x))) = 0 \<and>
         cbState (client (snd (dispatch m a resp x))) = CircuitClosed \<and>
         cbHalfOpenInFlight (client (snd (dispatch m a resp x))) = False"
proof -
  have "dispatch m a resp x = (Some (Inr resp), x\<lparr>client := recordSuccess (client x)\<rparr>)"
    using assms dispatch_2xx [of resp m a x] dispatch_4xx [of resp m a x] by blast
  then show ?thesis
    by (simp add: recordSuccess_def)
qed

text \<open>
  A 404 arrives while the breaker is HalfOpen with a probe in flight and a count of 7.
\<close>

theorem C7_witness:
  "dispatch ''GET'' \<lparr>checkTime = 0, transport = Inl '''', recordTime = 0, rnd = 0,
       replay = None, ctxErr = None\<rparr>
     \<lparr>StatusCode = 404, RetryAfter = '''', Body = ''not found''\<rparr>
     \<lparr>client = (NewClient ''k'')\<lparr>cbState := CircuitHalfOpen, cbConsecutive5xx := 7,
        cbHalfOpenInFlight := True\<rparr>, retries429 = 0, retries5xx = 0, calls = 1, waits = []\<rparr> =
   (Some (Inr \<lparr>StatusCode = 404, RetryAfter = '''', Body = ''not found''\<rparr>),
    \<lparr>client = (NewClient ''k'')\<lparr>cbState := CircuitClosed, cbConsecutive5xx := 0,
        cbHalfOpenInFlight := False\<rparr>, retries429 = 0, retries5xx = 0, calls = 1, waits = []\<rparr>)"
  using C7_success_resets_breaker [of "\<lparr>StatusCode = 404, RetryAfter = '''', Body = ''not found''\<rparr>"
      "''GET''" "\<lparr>checkTime = 0, transport = Inl '''', recordTime = 0, rnd = 0,
       replay = None, ctxErr = None\<rparr>"
      "\<lparr>client = (NewClient ''k'')\<lparr>cbState := CircuitHalfOpen, cbConsecutive5xx := 7,
        cbHalfOpenInFlight := True\<rparr>, retries429 = 0, retries5xx = 0, calls = 1, waits = []\<rparr>"]
  by (simp add: recordSuccess_def NewClient_def)

text \<open>
  Claim C8. When the permission check of an iteration is granted and the transport call
  returns an error, \<^verbatim>\<open>doWithRetry\<close> returns that error from this iteration: one
  transport call is counted and nothing is retried, the retry counters and the waits
  are as they were, and the breaker is the one the transport call was made with, \<open>c'\<close>,
  the client as the permission check left it. No outcome is recorded for the failure.
  From a Closed breaker the check changes nothing either, so the breaker is the one the
  iteration started with.
\<close>

theorem C8_transport_failure:
  assumes "checkCircuitBreaker (checkTime (env i)) (client x) = (None, c')"
    and "transport (env i) = Inl e"
  shows "doWithRetry_loop m env i x =
           (Inl (TransportError e), x\<lparr>client := c', calls := calls x + 1\<rparr>) \<and>
         (cbState (client x) = CircuitClosed \<longrightarrow> c' = client x)"
proof
  have "attempt m (env i) x = (Some (Inl (TransportError e)), x\<lparr>client := c', calls := calls x + 1\<rparr>)"
    using assms by (simp add: attempt_granted)
  then show "doWithRetry_loop m env i x =
           (Inl (TransportError e), x\<lparr>client := c', calls := calls x + 1\<rparr>)"
    by (rule loop_returns)
next
  show "cbState (client x) = CircuitClosed \<longrightarrow> c' = client x"
    using assms(1) by (auto simp: checkCircuitBreaker_closed)
qed

text \<open>
  A connection refused on the first attempt of a call on a Closed breaker with a count
  of 3.
\<close>

theorem C8_witness:
  "doWithRetry ''GET''
     (\<lambda>i. \<lparr>checkTime = 40000000000, transport = Inl ''connection refused'',
            recordTime = 40000000000, rnd = 0, replay = None, ctxErr = None\<rparr>)
     ((NewClient ''k'')\<lparr>cbConsecutive5xx := 3\<rparr>) =
   (Inl (TransportError ''connection refused''),
    \<lparr>client = (NewClient ''k'')\<lparr>cbConsecutive5xx := 3\<rparr>, retries429 = 0, retries5xx = 0,
     calls = 1, waits = []\<rparr>)"
proof -
  let ?c = "(NewClient ''k'')\<lparr>cbConsecutive5xx := 3\<rparr>"
  let ?env = "\<lambda>i::nat. \<lparr>checkTime = 40000000000, transport = Inl ''connection refused'',
            recordTime = 40000000000, rnd = 0, replay = None, ctxErr = None\<rparr>"
  let ?x = "\<lparr>client = ?c, retries429 = 0, retries5xx = 0, calls = 0, waits = []\<rparr>"
  have "checkCircuitBreaker (checkTime (?env 0)) (client ?x) = (None, ?c)"
    by (simp add: checkCircuitBreaker_def NewClient_def)
  moreover have "transport (?env 0) = Inl ''connection refused''"
    by simp
  ultimately have "doWithRetry_loop ''GET'' ?env 0 ?x =
      (Inl (TransportError ''connection refused''), ?x\<lparr>client := ?c, calls := calls ?x + 1\<rparr>)"
    using C8_transport_failure [of ?env 0 ?x ?c "''connection refused''" "''GET''"] by blast
  then show ?thesis
    by (simp add: doWithRetry_def)
qed

text \<open>
  Claim C10. Dispatching a response with status 429 leaves the client, and so every
  field of the breaker, as it was, whichever way the dispatch ends (the response
  returned, a retry, a failed body replay, a cancelled wait). For a whole iteration: the
  breaker after it is the breaker the permission check left.
\<close>

theorem C10_rate_limit_leaves_breaker:
  assumes "StatusCode resp = 429"
  shows "client (snd (dispatch m a resp x)) = client x \<and>
         (checkCircuitBreaker (checkTime a) (client x) = (None, c') \<longrightarrow>
          transport a = Inr resp \<longrightarrow> client (snd (attempt m a x)) = c')"
proof -
  have d: "client (snd (dispatch m a resp y)) = client y" for y
    using assms by (simp add: dispatch_429 split: sum.splits option.splits)
  show ?thesis
    using d [of x] d [of "x\<lparr>client := c', calls := calls x + 1\<rparr>"]
    by (simp add: attempt_granted)
qed

text \<open>
  A 429 arrives on a Closed breaker with a count of 3.
\<close>

theorem C10_witness:
  "client (snd (dispatch ''GET''
     \<lparr>checkTime = 0, transport = Inl '''', recordTime = 0, rnd = 0, replay = None, ctxErr = None\<rparr>
     \<lparr>StatusCode = 429, RetryAfter = '''', Body = ''slow down''\<rparr>
     \<lparr>client = (NewClient ''k'')\<lparr>cbConsecutive5xx := 3\<rparr>, retries429 = 0, retries5xx = 0,
      calls = 1, waits = []\<rparr>)) =
   (NewClient ''k'')\<lparr>cbConsecutive5xx := 3\<rparr>"
proof -
  let ?resp = "\<lparr>StatusCode = 429, RetryAfter = '''', Body = ''slow down''\<rparr>"
  have "StatusCode ?resp = 429"
    by simp
  from C10_rate_limit_leaves_breaker [OF this] show ?thesis
    by simp
qed

subsection \<open>The delay after a 429\<close>

lemma baseDelay_no_overflow:
  assumes "k < MaxRateLimitRetries"
  shows "wrap64 (RateLimitBaseDelay * wrap64 (2 ^ k)) = RateLimitBaseDelay * 2 ^ k \<and>
         quot (RateLimitBaseDelay * 2 ^ k) 2 = RateLimitBaseDelay * 2 ^ k div 2 \<and>
         0 < RateLimitBaseDelay * 2 ^ k div 2"
proof -
  from assms have "k = 0 \<or> k = 1 \<or> k = 2"
    by (auto simp: MaxRateLimitRetries_def)
  then show ?thesis
    by (auto simp: wrap64_def quot_def RateLimitBaseDelay_def Second_def)
qed

lemma rateLimitDelay_jitter:
  assumes k: "k < MaxRateLimitRetries" and h: "h = [] \<or> Atoi h = None"
  shows "rateLimitDelay k r h =
           Inr (RateLimitBaseDelay * 2 ^ k + r mod (RateLimitBaseDelay * 2 ^ k div 2))"
proof -
  let ?b = "RateLimitBaseDelay * 2 ^ k"
  note b = baseDelay_no_overflow [OF k]
  have j: "0 \<le> r mod (?b div 2)" "r mod (?b div 2) < ?b div 2"
    using b by simp_all
  have "?b \<le> 4 * 1000000000"
  proof -
    from k have "k = 0 \<or> k = 1 \<or> k = 2"
      by (auto simp: MaxRateLimitRetries_def)
    then show ?thesis
      by (auto simp: RateLimitBaseDelay_def Second_def)
  qed
  moreover have "?b div 2 \<le> ?b"
    using b by linarith
  moreover have "(2::int) ^ 63 = 9223372036854775808"
    by simp
  ultimately have "- (2 ^ 63) \<le> ?b + r mod (?b div 2)" and "?b + r mod (?b div 2) < 2 ^ 63"
    using j by linarith+
  then have "wrap64 (?b + r mod (?b div 2)) = ?b + r mod (?b div 2)"
    by (rule wrap64_id)
  with b h show ?thesis
    by (auto simp: rateLimitDelay_def Let_def)
qed

lemma rateLimitDelay_retry_after:
  assumes k: "k < MaxRateLimitRetries" and h: "Atoi h = Some S"
  shows "rateLimitDelay k r h = Inr (wrap64 (S * Second))"
proof -
  note b = baseDelay_no_overflow [OF k]
  from h have "h \<noteq> []"
    by (auto simp: Atoi_def)
  with b h show ?thesis
    by (simp add: rateLimitDelay_def Let_def)
qed

text \<open>
  Claim C5, as stated, fails: a Retry-After header of 10000000000 parses to
  \<open>S = 10000000000\<close>, but \<open>S\<close> seconds is more than a Duration holds and the
  multiplication by \<^verbatim>\<open>time.Second\<close> wraps around to a negative delay.
\<close>

theorem C5_retry_after_overflow:
  "Atoi ''10000000000'' = Some 10000000000 \<and>
   rateLimitDelay 0 0 ''10000000000'' = Inr (- 8446744073709551616) \<and>
   - 8446744073709551616 \<noteq> 10000000000 * Second"
  by (simp add: rateLimitDelay_def Atoi_def is_digit_def wrap64_def quot_def
      RateLimitBaseDelay_def Second_def)

text \<open>
  Claim C5, amended. At retry \<open>k\<close> (below \<open>MaxRateLimitRetries\<close>, as the loop
  guarantees), with no Retry-After header or one that does not parse, the delay is
  \<open>RateLimitBaseDelay * 2 ^ k\<close> plus a jitter that is at least 0 and less than half of
  that. With a header that parses to \<open>S\<close>, where \<open>S\<close> seconds fits a Duration, the
  delay is exactly \<open>S\<close> seconds.
\<close>

theorem C5_rate_limit_delay:
  assumes "k < MaxRateLimitRetries"
  shows "(h = [] \<or> Atoi h = None \<longrightarrow>
            rateLimitDelay k r h =
              Inr (RateLimitBaseDelay * 2 ^ k + r mod (RateLimitBaseDelay * 2 ^ k div 2)) \<and>
            0 \<le> r mod (RateLimitBaseDelay * 2 ^ k div 2) \<and>
            r mod (RateLimitBaseDelay * 2 ^ k div 2) < RateLimitBaseDelay * 2 ^ k div 2) \<and>
         (Atoi h = Some S \<longrightarrow> - (2 ^ 63) \<le> S * Second \<longrightarrow> S * Second < 2 ^ 63 \<longrightarrow>
            rateLimitDelay k r h = Inr (S * Second))"
proof (intro conjI impI)
  assume "h = [] \<or> Atoi h = None"
  with assms show "rateLimitDelay k r h =
      Inr (RateLimitBaseDelay * 2 ^ k + r mod (RateLimitBaseDelay * 2 ^ k div 2))"
    by (rule rateLimitDelay_jitter)
next
  show "0 \<le> r mod (RateLimitBaseDelay * 2 ^ k div 2)"
    using baseDelay_no_overflow [OF assms] by simp
next
  show "r mod (RateLimitBaseDelay * 2 ^ k div 2) < RateLimitBaseDelay * 2 ^ k div 2"
    using baseDelay_no_overflow [OF assms] by simp
next
  assume "Atoi h = Some S" and "- (2 ^ 63) \<le> S * Second" and "S * Second < 2 ^ 63"
  then show "rateLimitDelay k r h = Inr (S * Second)"
    using assms by (simp add: rateLimitDelay_retry_after wrap64_id)
qed

text \<open>
  The second retry with a draw of 1234567890: without a header the delay is 2 s plus a
  jitter of 234567890 ns; with the header \<open>7\<close> it is 7 s.
\<close>

theorem C5_witness:
  "rateLimitDelay 1 1234567890 '''' = Inr 2234567890 \<and>
   rateLimitDelay 1 1234567890 ''7'' = Inr 7000000000"
proof -
  have k: "(1::nat) < MaxRateLimitRetries"
    by (simp add: MaxRateLimitRetries_def)
  have "rateLimitDelay 1 1234567890 '''' =
      Inr (RateLimitBaseDelay * 2 ^ 1 + 1234567890 mod (RateLimitBaseDelay * 2 ^ 1 div 2))"
    using C5_rate_limit_delay [OF k, of "''''" 1234567890 0] by simp
  then have a: "rateLimitDelay 1 1234567890 '''' = Inr 2234567890"
    by (simp add: RateLimitBaseDelay_def Second_def)
  have "Atoi ''7'' = Some 7"
    by (simp add: Atoi_def is_digit_def)
  moreover have "- (2 ^ 63) \<le> 7 * Second" and "7 * Second < 2 ^ 63"
    by (simp_all add: Second_def)
  ultimately have "rateLimitDelay 1 1234567890 ''7'' = Inr (7 * Second)"
    using C5_rate_limit_delay [OF k, of "''7''" 1234567890 7] by blast
  with a show ?thesis
    by (simp add: Second_def)
qed

subsection \<open>Calls that are rate limited throughout\<close>

lemma attempt_429_return:
  assumes "transport a = Inr resp" "StatusCode resp = 429" "attempt m a x = (Some r, x')"
  shows "retries429 x' = retries429 x \<and>
         (\<forall>resp'. r = Inr resp' \<longrightarrow>
            resp' = resp \<and> MaxRateLimitRetries \<le> retries429 x \<and> calls x' = calls x + 1)"
proof (cases "checkCircuitBreaker (checkTime a) (client x)")
  case (Pair e c')
  show ?thesis
  proof (cases e)
    case None
    with Pair assms have "dispatch m a resp (x\<lparr>client := c', calls := calls x + 1\<rparr>) = (Some r, x')"
      by (simp add: attempt_granted)
    with assms(2) show ?thesis
      by (auto simp: dispatch_429 split: if_splits sum.splits option.splits)
  next
    case (Some err)
    with Pair assms show ?thesis
      by (auto simp: attempt_def)
  qed
qed

lemma attempt_429_continue:
  assumes "transport a = Inr resp" "StatusCode resp = 429" "attempt m a x = (None, x')"
  shows "retries429 x' = retries429 x + 1 \<and> calls x' = calls x + 1 \<and>
         retries5xx x' = retries5xx x \<and> retries429 x < MaxRateLimitRetries \<and>
         checkCircuitBreaker (checkTime a) (client x) = (None, client x')"
proof (cases "checkCircuitBreaker (checkTime a) (client x)")
  case (Pair e c')
  show ?thesis
  proof (cases e)
    case None
    with Pair assms have "dispatch m a resp (x\<lparr>client := c', calls := calls x + 1\<rparr>) = (None, x')"
      by (simp add: attempt_granted)
    with assms(2) Pair None show ?thesis
      by (auto simp: dispatch_429 split: if_splits sum.splits option.splits)
  next
    case (Some err)
    with Pair assms show ?thesis
      by (auto simp: attempt_def)
  qed
qed

lemma attempt_429_exhausted:
  assumes "transport a = Inr resp" "StatusCode resp = 429"
    and "MaxRateLimitRetries \<le> retries429 x"
    and "checkCircuitBreaker (checkTime a) (client x) = (None, c')"
  shows "attempt m a x = (Some (Inr resp), x\<lparr>client := c', calls := calls x + 1\<rparr>)"
  using assms by (simp add: attempt_granted dispatch_429)

text \<open>
  Three checks granted in a row, with no outcome recorded in between, are only possible
  on a Closed breaker: from Open the third check finds the probe flag set, from HalfOpen
  the second does.
\<close>

lemma granted_thrice_closed:
  assumes "checkCircuitBreaker t1 c = (None, c1)"
    and "checkCircuitBreaker t2 c1 = (None, c2)"
    and "checkCircuitBreaker t3 c2 = (None, c3)"
  shows "cbState c3 = CircuitClosed"
proof (cases "cbState c")
  case CircuitClosed
  with assms show ?thesis
    by (auto simp: checkCircuitBreaker_def)
next
  case CircuitOpen
  with assms(1) have "cbState c1 = CircuitHalfOpen"
    by (auto simp: checkCircuitBreaker_def split: if_splits)
  with assms(2) have "cbState c2 = CircuitHalfOpen \<and> cbHalfOpenInFlight c2"
    by (auto simp: checkCircuitBreaker_def split: if_splits)
  with assms(3) show ?thesis
    by (auto simp: checkCircuitBreaker_def)
next
  case CircuitHalfOpen
  with assms(1) have "cbState c1 = CircuitHalfOpen \<and> cbHalfOpenInFlight c1"
    by (auto simp: checkCircuitBreaker_def split: if_splits)
  with assms(2) show ?thesis
    by (auto simp: checkCircuitBreaker_def)
qed

lemma loop_429_step:
  assumes a: "transport (env i) = Inr resp" "StatusCode resp = 429"
    and run: "doWithRetry_loop m env i x = (res, x')"
    and below: "retries429 x < MaxRateLimitRetries"
    and spent: "retries429 x' = MaxRateLimitRetries"
  shows "\<exists>y. doWithRetry_loop m env (Suc i) y = (res, x') \<and>
             retries429 y = retries429 x + 1 \<and> calls y = calls x + 1 \<and>
             checkCircuitBreaker (checkTime (env i)) (client x) = (None, client y)"
proof (cases "attempt m (env i) x")
  case (Pair r y)
  show ?thesis
  proof (cases r)
    case None
    with Pair have at: "attempt m (env i) x = (None, y)"
      by simp
    then have "doWithRetry_loop m env i x = doWithRetry_loop m env (Suc i) y"
      by (rule loop_continues)
    with run attempt_429_continue [OF a at] show ?thesis
      by auto
  next
    case (Some r')
    with Pair have at: "attempt m (env i) x = (Some r', y)"
      by simp
    then have "doWithRetry_loop m env i x = (r', y)"
      by (rule loop_returns)
    with run have "y = x'"
      by simp
    with attempt_429_return [OF a at] below spent show ?thesis
      by simp
  qed
qed

lemma loop_429_response_spent:
  "\<forall>i. \<exists>resp. transport (env i) = Inr resp \<and> StatusCode resp = 429 \<Longrightarrow>
   doWithRetry_loop m env i x = (Inr r, x') \<Longrightarrow> retries429 x \<le> MaxRateLimitRetries \<Longrightarrow>
   retries429 x' = MaxRateLimitRetries"
proof (induction m env i x rule: doWithRetry_loop.induct)
  case (1 m env i x)
  from "1.prems"(1) obtain resp where a: "transport (env i) = Inr resp" "StatusCode resp = 429"
    by blast
  show ?case
  proof (cases "attempt m (env i) x")
    case (Pair r0 y)
    show ?thesis
    proof (cases r0)
      case None
      with Pair have at: "attempt m (env i) x = (None, y)"
        by simp
      then have "doWithRetry_loop m env (Suc i) y = (Inr r, x')"
        using "1.prems"(2) loop_continues [of m env i x y] by simp
      moreover have "retries429 y \<le> MaxRateLimitRetries"
        using attempt_429_continue [OF a at] by simp
      ultimately show ?thesis
        using "1.IH" [OF at [symmetric] refl "1.prems"(1)] by simp
    next
      case (Some r')
      with Pair have at: "attempt m (env i) x = (Some r', y)"
        by simp
      then have "r' = Inr r" and "y = x'"
        using "1.prems"(2) loop_returns [of m env i x r' y] by simp_all
      with attempt_429_return [OF a at] "1.prems"(3) show ?thesis
        by simp
    qed
  qed
qed

text \<open>
  On a Closed breaker, with no body replay failing and no wait cancelled, a call that is
  rate limited throughout does spend its retries.
\<close>

lemma rateLimitDelay_defined:
  assumes "k < MaxRateLimitRetries"
  shows "\<exists>d. rateLimitDelay k r h = Inr d"
proof (cases "h = [] \<or> Atoi h = None")
  case True
  with assms show ?thesis
    by (simp add: rateLimitDelay_jitter)
next
  case False
  then obtain S where "Atoi h = Some S"
    by auto
  with assms show ?thesis
    by (simp add: rateLimitDelay_retry_after)
qed

lemma attempt_429_closed_retry:
  assumes a: "transport a = Inr resp" "StatusCode resp = 429"
    and closed: "cbState (client x) = CircuitClosed"
    and below: "retries429 x < MaxRateLimitRetries"
    and ok: "replay a = None" "ctxErr a = None"
  shows "\<exists>d. attempt m a x =
           (None, x\<lparr>calls := calls x + 1, retries429 := retries429 x + 1,
                    waits := waits x @ [d]\<rparr>)"
proof -
  from rateLimitDelay_defined [OF below] obtain d where
    d: "rateLimitDelay (retries429 x) (rnd a) (RetryAfter resp) = Inr d"
    by blast
  have "checkCircuitBreaker (checkTime a) (client x) = (None, client x)"
    using closed by (rule checkCircuitBreaker_closed)
  then have "attempt m a x = dispatch m a resp (x\<lparr>client := client x, calls := calls x + 1\<rparr>)"
    using a(1) by (simp add: attempt_granted)
  also have "\<dots> = (None, x\<lparr>calls := calls x + 1, retries429 := retries429 x + 1,
      waits := waits x @ [d]\<rparr>)"
    using a(2) below ok d by (simp add: dispatch_429)
  finally show ?thesis
    by blast
qed

lemma loop_429_closed_spends:
  "\<forall>i. \<exists>resp. transport (env i) = Inr resp \<and> StatusCode resp = 429 \<Longrightarrow>
   \<forall>j<MaxRateLimitRetries. replay (env j) = None \<and> ctxErr (env j) = None \<Longrightarrow>
   cbState (client x) = CircuitClosed \<Longrightarrow> retries429 x = i \<Longrightarrow> i \<le> MaxRateLimitRetries \<Longrightarrow>
   retries429 (snd (doWithRetry_loop m env i x)) = MaxRateLimitRetries"
proof (induction "MaxRateLimitRetries - i" arbitrary: i x)
  case 0
  then have spent: "MaxRateLimitRetries \<le> retries429 x"
    by simp
  from "0.prems"(1) obtain resp where a: "transport (env i) = Inr resp" "StatusCode resp = 429"
    by blast
  have "checkCircuitBreaker (checkTime (env i)) (client x) = (None, client x)"
    using "0.prems"(3) by (rule checkCircuitBreaker_closed)
  with a spent have "attempt m (env i) x =
      (Some (Inr resp), x\<lparr>client := client x, calls := calls x + 1\<rparr>)"
    by (intro attempt_429_exhausted)
  then have "doWithRetry_loop m env i x = (Inr resp, x\<lparr>client := client x, calls := calls x + 1\<rparr>)"
    by (rule loop_returns)
  with 0 show ?case
    by simp
next
  case (Suc n)
  then have below: "retries429 x < MaxRateLimitRetries" and i: "i < MaxRateLimitRetries"
    by simp_all
  from Suc.prems(1) obtain resp where a: "transport (env i) = Inr resp" "StatusCode resp = 429"
    by blast
  from Suc.prems(2) i have ok: "replay (env i) = None" "ctxErr (env i) = None"
    by simp_all
  from attempt_429_closed_retry [OF a Suc.prems(3) below ok] obtain d where
    at: "attempt m (env i) x = (None, x\<lparr>calls := calls x + 1, retries429 := retries429 x + 1,
        waits := waits x @ [d]\<rparr>)"
    by blast
  let ?y = "x\<lparr>calls := calls x + 1, retries429 := retries429 x + 1, waits := waits x @ [d]\<rparr>"
  have "doWithRetry_loop m env i x = doWithRetry_loop m env (Suc i) ?y"
    using at by (rule loop_continues)
  moreover have "retries429 (snd (doWithRetry_loop m env (Suc i) ?y)) = MaxRateLimitRetries"
    using Suc.hyps(2) Suc.prems i
    by (intro Suc.hyps(1) [of "Suc i" ?y]) simp_all
  ultimately show ?case
    by simp
qed

lemma doWithRetry_429_spent:
  assumes all429: "\<forall>i. \<exists>resp. transport (env i) = Inr resp \<and> StatusCode resp = 429"
    and run: "doWithRetry m env c = (res, x)"
    and spent: "retries429 x = MaxRateLimitRetries"
  shows "(\<exists>resp. transport (env MaxRateLimitRetries) = Inr resp \<and> StatusCode resp = 429 \<and>
            res = Inr resp) \<and>
         calls x = MaxRateLimitRetries + 1"
proof -
  let ?x0 = "\<lparr>client = c, retries429 = 0, retries5xx = 0, calls = 0, waits = []\<rparr>"
  from run have run0: "doWithRetry_loop m env 0 ?x0 = (res, x)"
    by (simp add: doWithRetry_def)
  from all429 obtain r0 r1 r2 r3 where
    r0: "transport (env 0) = Inr r0" "StatusCode r0 = 429" and
    r1: "transport (env (Suc 0)) = Inr r1" "StatusCode r1 = 429" and
    r2: "transport (env (Suc (Suc 0))) = Inr r2" "StatusCode r2 = 429" and
    r3: "transport (env (Suc (Suc (Suc 0)))) = Inr r3" "StatusCode r3 = 429"
    by metis
  from loop_429_step [OF r0 run0 _ spent] obtain y1 where
    y1: "doWithRetry_loop m env (Suc 0) y1 = (res, x)" "retries429 y1 = 1" "calls y1 = 1"
      "checkCircuitBreaker (checkTime (env 0)) c = (None, client y1)"
    by (auto simp: MaxRateLimitRetries_def)
  from loop_429_step [OF r1 y1(1) _ spent] y1 obtain y2 where
    y2: "doWithRetry_loop m env (Suc (Suc 0)) y2 = (res, x)" "retries429 y2 = 2" "calls y2 = 2"
      "checkCircuitBreaker (checkTime (env (Suc 0))) (client y1) = (None, client y2)"
    by (auto simp: MaxRateLimitRetries_def)
  from loop_429_step [OF r2 y2(1) _ spent] y2 obtain y3 where
    y3: "doWithRetry_loop m env (Suc (Suc (Suc 0))) y3 = (res, x)" "retries429 y3 = 3" "calls y3 = 3"
      "checkCircuitBreaker (checkTime (env (Suc (Suc 0)))) (client y2) = (None, client y3)"
    by (auto simp: MaxRateLimitRetries_def)
  have "cbState (client y3) = CircuitClosed"
    using y1(4) y2(4) y3(4) by (rule granted_thrice_closed)
  then have "checkCircuitBreaker (checkTime (env (Suc (Suc (Suc 0))))) (client y3) = (None, client y3)"
    by (rule checkCircuitBreaker_closed)
  with r3 have "attempt m (env (Suc (Suc (Suc 0)))) y3 =
      (Some (Inr r3), y3\<lparr>client := client y3, calls := calls y3 + 1\<rparr>)"
    using y3(2) by (intro attempt_429_exhausted) (simp_all add: MaxRateLimitRetries_def)
  then have "doWithRetry_loop m env (Suc (Suc (Suc 0))) y3 =
      (Inr r3, y3\<lparr>client := client y3, calls := calls y3 + 1\<rparr>)"
    by (rule loop_returns)
  with y3 have "res = Inr r3" and "calls x = 4"
    by auto
  moreover have "MaxRateLimitRetries = Suc (Suc (Suc 0))"
    by (simp add: MaxRateLimitRetries_def)
  ultimately show ?thesis
    using r3 by simp
qed

lemma doWithRetry_429_response_spent:
  assumes all429: "\<forall>i. \<exists>resp. transport (env i) = Inr resp \<and> StatusCode resp = 429"
    and run: "doWithRetry m env c = (Inr r, x)"
  shows "retries429 x = MaxRateLimitRetries"
  using all429 run [unfolded doWithRetry_def] by (rule loop_429_response_spent) simp

lemma doWithRetry_429_closed_spends:
  assumes all429: "\<forall>i. \<exists>resp. transport (env i) = Inr resp \<and> StatusCode resp = 429"
    and ok: "\<forall>j<MaxRateLimitRetries. replay (env j) = None \<and> ctxErr (env j) = None"
    and closed: "cbState c = CircuitClosed"
  shows "retries429 (snd (doWithRetry m env c)) = MaxRateLimitRetries"
  unfolding doWithRetry_def using all429 ok closed
  by (intro loop_429_closed_spends) simp_all

text \<open>
  Claim C6. Every transport call of a logical call is answered by a 429, and the call is
  the only user of the breaker while it runs. Once the call has spent its
  \<open>MaxRateLimitRetries\<close> retries, its result is the response of attempt number
  \<open>MaxRateLimitRetries + 1\<close>, a 429, with a nil error (\<open>Inr\<close>), and it has made
  exactly \<open>MaxRateLimitRetries + 1\<close> transport calls. Conversely, such a call only
  returns a response when its retries are spent. The retries are spent whenever the
  breaker is Closed at the start, no body replay fails and no wait is cancelled. In any
  iteration whose check is granted, a 429 that arrives when the retries are spent is
  returned with a nil error.
\<close>

theorem C6_rate_limit_exhausted:
  assumes all429: "\<forall>i. \<exists>resp. transport (env i) = Inr resp \<and> StatusCode resp = 429"
    and run: "doWithRetry m env c = (res, x)"
  shows "(retries429 x = MaxRateLimitRetries \<longrightarrow>
            (\<exists>resp. transport (env MaxRateLimitRetries) = Inr resp \<and> StatusCode resp = 429 \<and>
                    res = Inr resp) \<and>
            calls x = MaxRateLimitRetries + 1) \<and>
         (\<forall>r. res = Inr r \<longrightarrow> retries429 x = MaxRateLimitRetries) \<and>
         (cbState c = CircuitClosed \<longrightarrow>
            (\<forall>j<MaxRateLimitRetries. replay (env j) = None \<and> ctxErr (env j) = None) \<longrightarrow>
            retries429 x = MaxRateLimitRetries) \<and>
         (\<forall>a resp y c'. transport a = Inr resp \<longrightarrow> StatusCode resp = 429 \<longrightarrow>
            MaxRateLimitRetries \<le> retries429 y \<longrightarrow>
            checkCircuitBreaker (checkTime a) (client y) = (None, c') \<longrightarrow>
            attempt m a y = (Some (Inr resp), y\<lparr>client := c', calls := calls y + 1\<rparr>))"
proof (intro conjI)
  show "retries429 x = MaxRateLimitRetries \<longrightarrow>
      (\<exists>resp. transport (env MaxRateLimitRetries) = Inr resp \<and> StatusCode resp = 429 \<and>
        res = Inr resp) \<and>
      calls x = MaxRateLimitRetries + 1"
    using doWithRetry_429_spent [OF all429 run] by blast
next
  show "\<forall>r. res = Inr r \<longrightarrow> retries429 x = MaxRateLimitRetries"
    using doWithRetry_429_response_spent [OF all429] run by blast
next
  show "cbState c = CircuitClosed \<longrightarrow>
      (\<forall>j<MaxRateLimitRetries. replay (env j) = None \<and> ctxErr (env j) = None) \<longrightarrow>
      retries429 x = MaxRateLimitRetries"
    using doWithRetry_429_closed_spends [OF all429, where m = m and c = c] run by simp
next
  show "\<forall>a resp y c'. transport a = Inr resp \<longrightarrow> StatusCode resp = 429 \<longrightarrow>
      MaxRateLimitRetries \<le> retries429 y \<longrightarrow>
      checkCircuitBreaker (checkTime a) (client y) = (None, c') \<longrightarrow>
      attempt m a y = (Some (Inr resp), y\<lparr>client := c', calls := calls y + 1\<rparr>)"
    by (intro allI impI attempt_429_exhausted)
qed

text \<open>
  A call on a default client, every response a 429 without a Retry-After header.
\<close>

theorem C6_witness:
  "fst (doWithRetry ''GET''
     (\<lambda>i. \<lparr>checkTime = 0,
            transport = Inr \<lparr>StatusCode = 429, RetryAfter = '''', Body = ''slow down''\<rparr>,
            recordTime = 0, rnd = 250000000, replay = None, ctxErr = None\<rparr>)
     (NewClient ''k'')) =
     Inr \<lparr>StatusCode = 429, RetryAfter = '''', Body = ''slow down''\<rparr> \<and>
   calls (snd (doWithRetry ''GET''
     (\<lambda>i. \<lparr>checkTime = 0,
            transport = Inr \<lparr>StatusCode = 429, RetryAfter = '''', Body = ''slow down''\<rparr>,
            recordTime = 0, rnd = 250000000, replay = None, ctxErr = None\<rparr>)
     (NewClient ''k''))) = 4"
proof -
  let ?env = "\<lambda>i::nat. \<lparr>checkTime = 0,
            transport = Inr \<lparr>StatusCode = 429, RetryAfter = '''', Body = ''slow down''\<rparr>,
            recordTime = 0, rnd = 250000000, replay = None, ctxErr = None\<rparr>"
  let ?x = "\<lparr>client = NewClient ''k'', retries429 = 3, retries5xx = 0, calls = 4,
     waits = [1250000000, 2250000000, 4250000000]\<rparr>"
  have all429: "\<forall>i. \<exists>resp. transport (?env i) = Inr resp \<and> StatusCode resp = 429"
    by simp
  have run: "doWithRetry ''GET'' ?env (NewClient ''k'') =
      (Inr \<lparr>StatusCode = 429, RetryAfter = '''', Body = ''slow down''\<rparr>, ?x)"
    by code_simp
  have spent: "retries429 ?x = MaxRateLimitRetries"
    by (simp add: MaxRateLimitRetries_def)
  from C6_rate_limit_exhausted [OF all429 run] spent
  have "(\<exists>resp. transport (?env MaxRateLimitRetries) = Inr resp \<and> StatusCode resp = 429 \<and>
      Inr \<lparr>StatusCode = 429, RetryAfter = '''', Body = ''slow down''\<rparr> = Inr resp) \<and>
      calls ?x = MaxRateLimitRetries + 1"
    by blast
  then have "calls ?x = 4"
    by (simp add: MaxRateLimitRetries_def)
  with run show ?thesis
    by simp
qed

subsection \<open>Server errors\<close>

lemma dispatch_5xx_reported:
  assumes "500 \<le> StatusCode resp"
  shows "client (snd (dispatch m a resp x)) = record5xxError (recordTime a) (client x)"
  using assms by (simp add: dispatch_5xx Let_def split: option.splits)

lemma dispatch_5xx_terminal:
  assumes "500 \<le> StatusCode resp" and "\<not> isIdempotent m \<or> Max5xxRetries \<le> retries5xx x"
  shows "dispatch m a resp x =
           (Some (Inr resp), x\<lparr>client := record5xxError (recordTime a) (client x)\<rparr>)"
  using assms by (auto simp: dispatch_5xx Let_def)

lemma dispatch_5xx_retry:
  assumes "500 \<le> StatusCode resp" and "isIdempotent m" and "retries5xx x < Max5xxRetries"
    and "replay a = None" and "ctxErr a = None"
  shows "dispatch m a resp x =
           (None, x\<lparr>client := record5xxError (recordTime a) (client x),
                    retries5xx := retries5xx x + 1,
                    waits := waits x @ [ServerErrorRetryDelay]\<rparr>)"
  using assms by (simp add: dispatch_5xx Let_def)

lemma doWithRetry_5xx_not_idempotent:
  assumes m: "\<not> isIdempotent m"
    and r0: "transport (env 0) = Inr r0" "500 \<le> StatusCode r0"
    and g0: "checkCircuitBreaker (checkTime (env 0)) c = (None, c0)"
  shows "doWithRetry m env c =
           (Inr r0, \<lparr>client = record5xxError (recordTime (env 0)) c0, retries429 = 0,
                     retries5xx = 0, calls = 1, waits = []\<rparr>)"
proof -
  let ?x0 = "\<lparr>client = c, retries429 = 0, retries5xx = 0, calls = 0, waits = []\<rparr>"
  have "attempt m (env 0) ?x0 = dispatch m (env 0) r0 (?x0\<lparr>client := c0, calls := calls ?x0 + 1\<rparr>)"
    using g0 r0(1) by (simp add: attempt_granted)
  also have "\<dots> = (Some (Inr r0), \<lparr>client = record5xxError (recordTime (env 0)) c0,
      retries429 = 0, retries5xx = 0, calls = 1, waits = []\<rparr>)"
    using r0(2) m by (simp add: dispatch_5xx_terminal)
  finally show ?thesis
    by (simp add: doWithRetry_def)
qed

lemma doWithRetry_5xx_idempotent:
  assumes m: "isIdempotent m"
    and r0: "transport (env 0) = Inr r0" "500 \<le> StatusCode r0"
    and r1: "transport (env (Suc 0)) = Inr r1" "500 \<le> StatusCode r1"
    and ok: "replay (env 0) = None" "ctxErr (env 0) = None"
    and g0: "checkCircuitBreaker (checkTime (env 0)) c = (None, c0)"
    and g1: "checkCircuitBreaker (checkTime (env (Suc 0)))
               (record5xxError (recordTime (env 0)) c0) = (None, c1)"
  shows "doWithRetry m env c =
           (Inr r1, \<lparr>client = record5xxError (recordTime (env (Suc 0))) c1, retries429 = 0,
                     retries5xx = Max5xxRetries, calls = Max5xxRetries + 1,
                     waits = [ServerErrorRetryDelay]\<rparr>)"
proof -
  let ?x0 = "\<lparr>client = c, retries429 = 0, retries5xx = 0, calls = 0, waits = []\<rparr>"
  let ?x1 = "\<lparr>client = record5xxError (recordTime (env 0)) c0, retries429 = 0,
      retries5xx = 1, calls = 1, waits = [ServerErrorRetryDelay]\<rparr>"
  have "attempt m (env 0) ?x0 = dispatch m (env 0) r0 (?x0\<lparr>client := c0, calls := calls ?x0 + 1\<rparr>)"
    using g0 r0(1) by (simp add: attempt_granted)
  also have "\<dots> = (None, ?x1)"
    using r0(2) m ok by (simp add: dispatch_5xx_retry Max5xxRetries_def)
  finally have step0: "doWithRetry_loop m env 0 ?x0 = doWithRetry_loop m env (Suc 0) ?x1"
    by (rule loop_continues)
  have "attempt m (env (Suc 0)) ?x1 =
      dispatch m (env (Suc 0)) r1 (?x1\<lparr>client := c1, calls := calls ?x1 + 1\<rparr>)"
    using g1 r1(1) by (simp add: attempt_granted)
  also have "\<dots> = (Some (Inr r1), \<lparr>client = record5xxError (recordTime (env (Suc 0))) c1,
      retries429 = 0, retries5xx = Max5xxRetries, calls = Max5xxRetries + 1,
      waits = [ServerErrorRetryDelay]\<rparr>)"
    using r1(2) by (simp add: dispatch_5xx_terminal Max5xxRetries_def)
  finally have "doWithRetry_loop m env (Suc 0) ?x1 =
      (Inr r1, \<lparr>client = record5xxError (recordTime (env (Suc 0))) c1, retries429 = 0,
        retries5xx = Max5xxRetries, calls = Max5xxRetries + 1,
        waits = [ServerErrorRetryDelay]\<rparr>)"
    by (rule loop_returns)
  with step0 show ?thesis
    by (simp add: doWithRetry_def)
qed

text \<open>
  Claim C4, as stated, fails. A GET on a default client (threshold 5, cooldown 30 s)
  whose breaker has counted four server errors receives a 500: the error is recorded,
  the breaker opens, the loop waits one second and counts a retry, and the permission
  check before the second attempt rejects. The call returns the circuit-open error after
  one transport call, not the last 5xx response after two.
\<close>

theorem C4_retry_rejected_by_breaker:
  "isIdempotent ''GET'' \<and>
   doWithRetry ''GET''
     (\<lambda>i. \<lparr>checkTime = int i * 1000000000,
            transport = Inr \<lparr>StatusCode = 500, RetryAfter = '''', Body = ''boom''\<rparr>,
            recordTime = int i * 1000000000, rnd = 0, replay = None, ctxErr = None\<rparr>)
     ((NewClient ''k'')\<lparr>cbConsecutive5xx := 4\<rparr>) =
   (Inl ErrCircuitOpen,
    \<lparr>client = (NewClient ''k'')\<lparr>cbState := CircuitOpen, cbConsecutive5xx := 5, cbOpenedAt := 0\<rparr>,
     retries429 = 0, retries5xx = 1, calls = 1, waits = [1000000000]\<rparr>)"
  by code_simp

text \<open>
  Claim C4, amended. A response with status 500 or more is reported to the breaker with
  \<^const>\<open>record5xxError\<close>. When the method is not GET, HEAD or OPTIONS, or
  \<open>Max5xxRetries\<close> retries have been made, the response is returned. Otherwise, when
  the body replay succeeds and the wait is not cancelled, the loop waits
  \<open>ServerErrorRetryDelay\<close>, counts a retry and goes on to the next permission check.
  For a whole call: with a method that is not read-only, a granted check and a 5xx
  response, the call returns that response after one transport call and no retry; with
  a read-only method, both checks granted and both responses 5xx, it returns the second
  response after \<open>Max5xxRetries + 1\<close> transport calls.
\<close>

theorem C4_server_error_dispatch:
  "(500 \<le> StatusCode resp \<longrightarrow>
      client (snd (dispatch m a resp x)) = record5xxError (recordTime a) (client x)) \<and>
   (500 \<le> StatusCode resp \<longrightarrow> \<not> isIdempotent m \<or> Max5xxRetries \<le> retries5xx x \<longrightarrow>
      dispatch m a resp x =
        (Some (Inr resp), x\<lparr>client := record5xxError (recordTime a) (client x)\<rparr>)) \<and>
   (500 \<le> StatusCode resp \<longrightarrow> isIdempotent m \<longrightarrow> retries5xx x < Max5xxRetries \<longrightarrow>
      replay a = None \<longrightarrow> ctxErr a = None \<longrightarrow>
      dispatch m a resp x =
        (None, x\<lparr>client := record5xxError (recordTime a) (client x),
                 retries5xx := retries5xx x + 1,
                 waits := waits x @ [ServerErrorRetryDelay]\<rparr>)) \<and>
   (\<not> isIdempotent m \<longrightarrow> transport (env 0) = Inr r0 \<longrightarrow> 500 \<le> StatusCode r0 \<longrightarrow>
      checkCircuitBreaker (checkTime (env 0)) c = (None, c0) \<longrightarrow>
      doWithRetry m env c =
        (Inr r0, \<lparr>client = record5xxError (recordTime (env 0)) c0, retries429 = 0,
                  retries5xx = 0, calls = 1, waits = []\<rparr>)) \<and>
   (isIdempotent m \<longrightarrow> transport (env 0) = Inr r0 \<longrightarrow> 500 \<le> StatusCode r0 \<longrightarrow>
      transport (env (Suc 0)) = Inr r1 \<longrightarrow> 500 \<le> StatusCode r1 \<longrightarrow>
      replay (env 0) = None \<longrightarrow> ctxErr (env 0) = None \<longrightarrow>
      checkCircuitBreaker (checkTime (env 0)) c = (None, c0) \<longrightarrow>
      checkCircuitBreaker (checkTime (env (Suc 0)))
        (record5xxError (recordTime (env 0)) c0) = (None, c1) \<longrightarrow>
      doWithRetry m env c =
        (Inr r1, \<lparr>client = record5xxError (recordTime (env (Suc 0))) c1, retries429 = 0,
                  retries5xx = Max5xxRetries, calls = Max5xxRetries + 1,
                  waits = [ServerErrorRetryDelay]\<rparr>))"
proof (intro conjI impI)
  assume "500 \<le> StatusCode resp"
  then show "client (snd (dispatch m a resp x)) = record5xxError (recordTime a) (client x)"
    by (rule dispatch_5xx_reported)
next
  assume "500 \<le> StatusCode resp" and "\<not> isIdempotent m \<or> Max5xxRetries \<le> retries5xx x"
  then show "dispatch m a resp x =
      (Some (Inr resp), x\<lparr>client := record5xxError (recordTime a) (client x)\<rparr>)"
    by (rule dispatch_5xx_terminal)
next
  assume "500 \<le> StatusCode resp" and "isIdempotent m" and "retries5xx x < Max5xxRetries"
    and "replay a = None" and "ctxErr a = None"
  then show "dispatch m a resp x =
      (None, x\<lparr>client := record5xxError (recordTime a) (client x),
               retries5xx := retries5xx x + 1,
               waits := waits x @ [ServerErrorRetryDelay]\<rparr>)"
    by (rule dispatch_5xx_retry)
next
  assume "\<not> isIdempotent m" and "transport (env 0) = Inr r0" and "500 \<le> StatusCode r0"
    and "checkCircuitBreaker (checkTime (env 0)) c = (None, c0)"
  then show "doWithRetry m env c =
      (Inr r0, \<lparr>client = record5xxError (recordTime (env 0)) c0, retries429 = 0,
                retries5xx = 0, calls = 1, waits = []\<rparr>)"
    by (rule doWithRetry_5xx_not_idempotent)
next
  assume "isIdempotent m" and "transport (env 0) = Inr r0" and "500 \<le> StatusCode r0"
    and "transport (env (Suc 0)) = Inr r1" and "500 \<le> StatusCode r1"
    and "replay (env 0) = None" and "ctxErr (env 0) = None"
    and "checkCircuitBreaker (checkTime (env 0)) c = (None, c0)"
    and "checkCircuitBreaker (checkTime (env (Suc 0)))
        (record5xxError (recordTime (env 0)) c0) = (None, c1)"
  then show "doWithRetry m env c =
      (Inr r1, \<lparr>client = record5xxError (recordTime (env (Suc 0))) c1, retries429 = 0,
                retries5xx = Max5xxRetries, calls = Max5xxRetries + 1,
                waits = [ServerErrorRetryDelay]\<rparr>)"
    by (rule doWithRetry_5xx_idempotent)
qed

text \<open>
  A GET on a default client answered by 503 twice.
\<close>

theorem C4_witness:
  "doWithRetry ''GET''
     (\<lambda>i. \<lparr>checkTime = int i * 1000000000,
            transport = Inr \<lparr>StatusCode = 503, RetryAfter = '''',
                             Body = (if i = 0 then ''first'' else ''second'')\<rparr>,
            recordTime = int i * 1000000000, rnd = 0, replay = None, ctxErr = None\<rparr>)
     (NewClient ''k'') =
   (Inr \<lparr>StatusCode = 503, RetryAfter = '''', Body = ''second''\<rparr>,
    \<lparr>client = (NewClient ''k'')\<lparr>cbConsecutive5xx := 2\<rparr>, retries429 = 0, retries5xx = 1,
     calls = 2, waits = [1000000000]\<rparr>)"
proof -
  let ?env = "\<lambda>i::nat. \<lparr>checkTime = int i * 1000000000,
            transport = Inr \<lparr>StatusCode = 503, RetryAfter = '''',
                             Body = (if i = 0 then ''first'' else ''second'')\<rparr>,
            recordTime = int i * 1000000000, rnd = 0, replay = None, ctxErr = None\<rparr>"
  let ?c = "NewClient ''k''"
  let ?r0 = "\<lparr>StatusCode = 503, RetryAfter = '''', Body = ''first''\<rparr>"
  let ?r1 = "\<lparr>StatusCode = 503, RetryAfter = '''', Body = ''second''\<rparr>"
  let ?c1 = "record5xxError (recordTime (?env 0)) ?c"
  note w = C4_server_error_dispatch [where m = "''GET''" and env = ?env and c = ?c
      and ?c0.0 = ?c and ?c1.0 = ?c1 and ?r0.0 = ?r0 and ?r1.0 = ?r1]
  have "isIdempotent ''GET''"
    by (simp add: isIdempotent_def)
  moreover have "transport (?env 0) = Inr ?r0" "500 \<le> StatusCode ?r0"
    "transport (?env (Suc 0)) = Inr ?r1" "500 \<le> StatusCode ?r1"
    "replay (?env 0) = None" "ctxErr (?env 0) = None"
    by simp_all
  moreover have "checkCircuitBreaker (checkTime (?env 0)) ?c = (None, ?c)"
    by (simp add: checkCircuitBreaker_def NewClient_def)
  moreover have "checkCircuitBreaker (checkTime (?env (Suc 0))) ?c1 = (None, ?c1)"
    by (simp add: checkCircuitBreaker_def record5xxError_def NewClient_def wrap64_def
        CircuitBreakerThreshold_def)
  ultimately have "doWithRetry ''GET'' ?env ?c =
      (Inr ?r1, \<lparr>client = record5xxError (recordTime (?env (Suc 0))) ?c1, retries429 = 0,
                 retries5xx = Max5xxRetries, calls = Max5xxRetries + 1,
                 waits = [ServerErrorRetryDelay]\<rparr>)"
    using w by blast
  then show ?thesis
    by (simp add: record5xxError_def NewClient_def wrap64_def CircuitBreakerThreshold_def
        Max5xxRetries_def ServerErrorRetryDelay_def Second_def)
qed

section \<open>Properties of the error classifier\<close>

text \<open>
  Claim C9. For every body, and whatever the decoder and \<^verbatim>\<open>TrimSpace\<close> return,
  \<^const>\<open>ParseAPIError\<close> returns a pointer that is not nil. When decoding fails and
  the first byte of the body is \<open><\<close>, the result is the \<open>not_found\<close> error. When
  decoding fails and the body fails the test of line 33 (it is empty, or its first byte
  is not \<open><\<close> and its trimmed text does not start with \<open><!\<close>), the result has
  the body as its message and no code.
\<close>

theorem C9_ParseAPIError_total:
  "(\<exists>e. ParseAPIError unmarshal trimSpace body = Some e) \<and>
   (unmarshal body = None \<longrightarrow> (\<exists>rest. body = CHR ''<'' # rest) \<longrightarrow>
      ParseAPIError unmarshal trimSpace body =
        Some \<lparr>Code = ''not_found'',
              Message = ''Resource not found or endpoint does not exist'', DocURL = ''''\<rparr>) \<and>
   (unmarshal body = None \<longrightarrow>
      \<not> (length body > 0 \<and> (hd body = CHR ''<'' \<or> prefix ''<!'' (trimSpace body))) \<longrightarrow>
      ParseAPIError unmarshal trimSpace body =
        Some \<lparr>Code = '''', Message = body, DocURL = ''''\<rparr>)"
  by (cases "unmarshal body") (auto simp: ParseAPIError_def)

text \<open>
  A decoder that rejects everything, and a \<^verbatim>\<open>TrimSpace\<close> that drops leading blanks.
\<close>

theorem C9_witness:
  "ParseAPIError (\<lambda>b. None) (dropWhile (\<lambda>ch. ch = CHR '' '')) ''<html>502</html>'' =
     Some \<lparr>Code = ''not_found'',
           Message = ''Resource not found or endpoint does not exist'', DocURL = ''''\<rparr> \<and>
   ParseAPIError (\<lambda>b. None) (dropWhile (\<lambda>ch. ch = CHR '' '')) ''Bad Gateway'' =
     Some \<lparr>Code = '''', Message = ''Bad Gateway'', DocURL = ''''\<rparr>"
proof -
  let ?u = "\<lambda>b::string. None :: APIError option"
  let ?t = "dropWhile (\<lambda>ch. ch = CHR '' '')"
  have "?u ''<html>502</html>'' = None" and "\<exists>rest. ''<html>502</html>'' = CHR ''<'' # rest"
    by simp_all
  with C9_ParseAPIError_total [of ?u ?t "''<html>502</html>''"]
  have a: "ParseAPIError ?u ?t ''<html>502</html>'' =
     Some \<lparr>Code = ''not_found'',
           Message = ''Resource not found or endpoint does not exist'', DocURL = ''''\<rparr>"
    by blast
  have "?u ''Bad Gateway'' = None"
    and "\<not> (length ''Bad Gateway'' > 0 \<and>
      (hd ''Bad Gateway'' = CHR ''<'' \<or> prefix ''<!'' (?t ''Bad Gateway'')))"
    by simp_all
  with C9_ParseAPIError_total [of ?u ?t "''Bad Gateway''"]
  have b: "ParseAPIError ?u ?t ''Bad Gateway'' =
     Some \<lparr>Code = '''', Message = ''Bad Gateway'', DocURL = ''''\<rparr>"
    by blast
  from a b show ?thesis
    by blast
qed

end
